theory Spec2Isabelle
  imports Main
begin

section \<open>Values shared by the HTTP layer\<close>

text \<open>
  Python values that travel through the routes: \<open>Dict[str, Any]\<close> payloads are
  association lists in insertion order, a \<open>datetime\<close> is the number of
  microseconds since the epoch.
\<close>

type_synonym datetime = int

datatype json =
    JNull
  | JBool bool
  | JInt int
  | JStr string
  | JTime datetime
  | JList "json list"
  | JObj "(string \<times> json) list"

text \<open>\<open>d.get(k, default)\<close> on a Python dict.\<close>

definition dict_get :: "(string \<times> json) list \<Rightarrow> string \<Rightarrow> json \<Rightarrow> json" where
  "dict_get d k dflt = (case map_of d k of None \<Rightarrow> dflt | Some v \<Rightarrow> v)"

text \<open>\<open>str(n)\<close> for an integer, as the f-string of the default session id needs it.\<close>

fun str_nat :: "nat \<Rightarrow> string" where
  "str_nat n =
     (if n < 10 then [char_of (48 + n)]
      else str_nat (n div 10) @ [char_of (48 + n mod 10)])"

declare str_nat.simps [simp del]

definition str_int :: "int \<Rightarrow> string" where
  "str_int i = (if i < 0 then CHR ''-'' # str_nat (nat (- i)) else str_nat (nat i))"

section \<open>Schemas (api/schemas.py)\<close>

datatype MessageRole = USER | ASSISTANT | SYSTEM

fun role_value :: "MessageRole \<Rightarrow> string" where
  "role_value USER = ''user''"
| "role_value ASSISTANT = ''assistant''"
| "role_value SYSTEM = ''system''"

record ChatMessage =
  role :: MessageRole
  content :: string
  msg_timestamp :: "datetime option"

text \<open>
  The request body as it arrives: the keys a client may leave out are optional.
  \<open>ChatRequest\<close> fills the declared defaults (\<open>stream: bool = Field(True)\<close>,
  \<open>session_id = None\<close>). The fields \<open>model\<close>, \<open>temperature\<close>,
  \<open>max_tokens\<close>, \<open>tools\<close> and \<open>metadata\<close> are read by no route and are
  left out.
\<close>

record request_body =
  body_messages :: "ChatMessage list"
  body_session_id :: "string option"
  body_stream :: "bool option"

record ChatRequest =
  req_messages :: "ChatMessage list"
  req_session_id :: "string option"
  req_stream :: bool

definition parse_ChatRequest :: "request_body \<Rightarrow> ChatRequest" where
  "parse_ChatRequest b =
     \<lparr> req_messages = body_messages b,
       req_session_id = body_session_id b,
       req_stream = (case body_stream b of None \<Rightarrow> True | Some f \<Rightarrow> f) \<rparr>"

record ChatResponse =
  cr_subtask_id :: string
  cr_session_id :: string
  cr_status :: string
  cr_created_at :: datetime

definition ChatResponse_status_literals :: "string list" where
  "ChatResponse_status_literals = [''created'', ''running'', ''completed'', ''error'']"

record ChatEvent =
  event_type :: string
  data :: "(string \<times> json) list"
  timestamp :: datetime

definition event_type_literals :: "string list" where
  "event_type_literals =
     [''content'', ''tool_call'', ''tool_result'', ''thinking'', ''error'',
      ''complete'', ''cancelled'']"

record SessionStatus =
  ss_subtask_id :: string
  ss_session_id :: string
  ss_status :: string
  ss_created_at :: datetime
  ss_updated_at :: "datetime option"
  ss_message_count :: nat
  ss_metadata :: "(string \<times> json) list option"

definition SessionStatus_status_literals :: "string list" where
  "SessionStatus_status_literals =
     [''pending'', ''running'', ''completed'', ''error'', ''cancelled'']"

text \<open>What a route can fail with: an \<open>HTTPException\<close> with its status code and
  detail, or a pydantic \<open>ValidationError\<close> escaping the handler.\<close>

datatype route_error = HTTPException nat string | ValidationError

section \<open>The session registry (app_state["active_sessions"])\<close>

record session =
  session_id :: string
  status :: string
  created_at :: datetime
  messages :: "ChatMessage list"

type_synonym sessions = "string \<rightharpoonup> session"

text \<open>\<open>if subtask_id in sessions: sessions[subtask_id]["status"] = v\<close>\<close>

definition set_status_if_present :: "string \<Rightarrow> string \<Rightarrow> sessions \<Rightarrow> sessions" where
  "set_status_if_present subtask_id v reg =
     (case reg subtask_id of
        None \<Rightarrow> reg
      | Some s \<Rightarrow> reg(subtask_id \<mapsto> s\<lparr>status := v\<rparr>))"

section \<open>The upstream producer\<close>

text \<open>
  \<open>agent.stream(messages, thread_id=...)\<close> is an asynchronous generator owned by the
  agent framework. One run of it is the list of dicts it yields and the way the iteration
  ends: exhausted, an \<open>Exception\<close> with its \<open>str\<close>, or \<open>asyncio.CancelledError\<close>.
  The agent itself is a parameter: it maps the arguments of the call to the run.
\<close>

datatype ending = Exhausted | Raises string | Cancelled_Error

record producer_run =
  yielded :: "(string \<times> json) list list"
  ending :: ending

type_synonym agent = "(string \<times> string) list \<Rightarrow> string \<Rightarrow> producer_run"

text \<open>
  The environment of one stream: the readings of \<open>datetime.now\<close> taken by the
  \<open>timestamp\<close> default of the n-th constructed \<open>ChatEvent\<close>, and the text pydantic
  gives a \<open>ValidationError\<close> (a library string, taken as a parameter).
\<close>

record stream_env =
  clock :: "nat \<Rightarrow> datetime"
  validation_text :: "json \<Rightarrow> json \<Rightarrow> string"

text \<open>
  \<open>ChatEvent(event_type=..., data=...)\<close>: pydantic accepts an \<open>event_type\<close> that is
  one of the seven literals and a \<open>data\<close> that is a dict; anything else raises
  \<open>ValidationError\<close> (\<open>Inl\<close> with its text).
\<close>

definition new_ChatEvent :: "stream_env \<Rightarrow> nat \<Rightarrow> json \<Rightarrow> json \<Rightarrow> string + ChatEvent" where
  "new_ChatEvent env i ty d =
     (case ty of
        JStr k \<Rightarrow>
          (case d of
             JObj payload \<Rightarrow>
               (if k \<in> set event_type_literals
                then Inr \<lparr> event_type = k, data = payload, timestamp = clock env i \<rparr>
                else Inl (validation_text env ty d))
           | _ \<Rightarrow> Inl (validation_text env ty d))
      | _ \<Rightarrow> Inl (validation_text env ty d))"

section \<open>stream_chat_events (api/sse.py)\<close>

text \<open>
  The body of the \<open>async for\<close>: each yielded dict is read with
  \<open>event.get("type", "")\<close> and \<open>event.get("data", {})\<close>, turned into a \<open>ChatEvent\<close>
  and yielded. The result is the events yielded so far and, when a construction raised,
  the text of that exception.
\<close>

fun forward :: "stream_env \<Rightarrow> nat \<Rightarrow> (string \<times> json) list list \<Rightarrow> ChatEvent list \<times> string option" where
  "forward env i [] = ([], None)"
| "forward env i (event # rest) =
     (case new_ChatEvent env i (dict_get event ''type'' (JStr [])) (dict_get event ''data'' (JObj [])) of
        Inl msg \<Rightarrow> ([], Some msg)
      | Inr ce \<Rightarrow> (case forward env (Suc i) rest of (out, r) \<Rightarrow> (ce # out, r)))"

record stream_result =
  emitted :: "ChatEvent list"
  sessions_after :: sessions
  reraised :: bool

definition terminal_event :: "stream_env \<Rightarrow> nat \<Rightarrow> string \<Rightarrow> (string \<times> json) list \<Rightarrow> ChatEvent" where
  "terminal_event env i k payload = \<lparr> event_type = k, data = payload, timestamp = clock env i \<rparr>"

text \<open>
  The generator run to its end by a consumer that takes every event. It reads and
  writes the registry only in its last step, so \<open>reg\<close> is the registry at that moment.
  \<^item> loop exhausted: yield \<open>complete\<close>, then set the status to \<open>completed\<close>;
  \<^item> \<open>except asyncio.CancelledError\<close>: set \<open>cancelled\<close>, yield \<open>cancelled\<close>, re-raise;
  \<^item> \<open>except Exception as e\<close> (raised by the producer or by \<open>ChatEvent(...)\<close>):
    set \<open>error\<close>, yield \<open>error\<close> with \<open>{"message": str(e)}\<close>.
\<close>

definition stream_chat_events ::
  "stream_env \<Rightarrow> agent \<Rightarrow> (string \<times> string) list \<Rightarrow> string \<Rightarrow> string \<Rightarrow> sessions \<Rightarrow> stream_result" where
  "stream_chat_events env agent msgs thread_id subtask_id reg =
     (case forward env 0 (yielded (agent msgs thread_id)) of
        (out, Some msg) \<Rightarrow>
          \<lparr> emitted = out @ [terminal_event env (length out) ''error'' [(''message'', JStr msg)]],
            sessions_after = set_status_if_present subtask_id ''error'' reg,
            reraised = False \<rparr>
      | (out, None) \<Rightarrow>
          (case ending (agent msgs thread_id) of
             Exhausted \<Rightarrow>
               \<lparr> emitted = out @ [terminal_event env (length out) ''complete'' []],
                 sessions_after = set_status_if_present subtask_id ''completed'' reg,
                 reraised = False \<rparr>
           | Cancelled_Error \<Rightarrow>
               \<lparr> emitted = out @ [terminal_event env (length out) ''cancelled'' []],
                 sessions_after = set_status_if_present subtask_id ''cancelled'' reg,
                 reraised = True \<rparr>
           | Raises msg \<Rightarrow>
               \<lparr> emitted = out @ [terminal_event env (length out) ''error'' [(''message'', JStr msg)]],
                 sessions_after = set_status_if_present subtask_id ''error'' reg,
                 reraised = False \<rparr>))"

section \<open>Routes (api/routes.py)\<close>

text \<open>\<open>event.model_dump()\<close>: every field of the \<open>ChatEvent\<close>, in declaration order.\<close>

definition model_dump :: "ChatEvent \<Rightarrow> (string \<times> json) list" where
  "model_dump e =
     [(''event_type'', JStr (event_type e)),
      (''data'', JObj (data e)),
      (''timestamp'', JTime (timestamp e))]"

text \<open>The dict \<open>event_generator\<close> yields for one event.\<close>

definition sse_frame :: "ChatEvent \<Rightarrow> (string \<times> json) list" where
  "sse_frame e = [(''event'', JStr (event_type e)), (''data'', JObj (model_dump e))]"

text \<open>What the closure \<open>event_generator\<close> captured: the arguments it will pass on.\<close>

record generator_args =
  gen_messages :: "(string \<times> string) list"
  gen_session_id :: string
  gen_subtask_id :: string

definition event_generator ::
  "stream_env \<Rightarrow> agent \<Rightarrow> generator_args \<Rightarrow> sessions \<Rightarrow> (string \<times> json) list list \<times> sessions \<times> bool" where
  "event_generator env agent g reg =
     (let r = stream_chat_events env agent (gen_messages g) (gen_session_id g) (gen_subtask_id g) reg
      in (map sse_frame (emitted r), sessions_after r, reraised r))"

datatype start_response =
    EventSourceResponse generator_args "(string \<times> string) list"
  | JSON ChatResponse

text \<open>
  What one call of \<open>start_chat\<close> reads from the clock: \<open>session_stamp\<close> is the
  integer \<open>int(datetime.now().timestamp())\<close> of the default session id, which Python
  computes through a float and which is taken as it comes; \<open>stored_at\<close> is the reading
  stored as \<open>created_at\<close>; \<open>answered_at\<close> is the \<open>created_at\<close> default of the
  response.
\<close>

record request_clock =
  session_stamp :: int
  stored_at :: datetime
  answered_at :: datetime

text \<open>
  \<open>start_chat\<close>. \<open>uuid\<close> is the value of \<open>str(uuid.uuid4())\<close>.
  \<open>request.session_id or ...\<close> takes the default for \<open>None\<close> and for the empty string.
\<close>

definition start_chat ::
  "string \<Rightarrow> request_clock \<Rightarrow> ChatRequest \<Rightarrow> sessions \<Rightarrow> start_response \<times> sessions" where
  "start_chat uuid now request reg =
     (let subtask_id = uuid;
          dflt = ''session-'' @ str_int (session_stamp now);
          thread_id =
            (case req_session_id request of
               None \<Rightarrow> dflt
             | Some s \<Rightarrow> if s = [] then dflt else s);
          reg' = reg(subtask_id \<mapsto>
                   \<lparr> session_id = thread_id, status = ''running'', created_at = stored_at now,
                     messages = req_messages request \<rparr>)
      in if req_stream request
         then (EventSourceResponse
                 \<lparr> gen_messages = map (\<lambda>m. (role_value (role m), content m)) (req_messages request),
                   gen_session_id = thread_id,
                   gen_subtask_id = subtask_id \<rparr>
                 [(''X-Subtask-ID'', subtask_id)],
               reg')
         else (JSON \<lparr> cr_subtask_id = subtask_id, cr_session_id = thread_id,
                      cr_status = ''created'', cr_created_at = answered_at now \<rparr>,
               reg'))"

text \<open>
  \<open>get_session_status\<close>. A stored session is a dict of four keys, never falsy, so
  \<open>if not session\<close> is the test for an unknown id. \<open>SessionStatus(status=...)\<close>
  validates the status against its literals. The injected \<open>session_manager\<close> is used
  by neither this handler nor \<open>cancel_session\<close>.
\<close>

definition get_session_status :: "string \<Rightarrow> datetime \<Rightarrow> sessions \<Rightarrow> route_error + SessionStatus" where
  "get_session_status subtask_id now reg =
     (case reg subtask_id of
        None \<Rightarrow> Inl (HTTPException 404 ''Subtask not found'')
      | Some s \<Rightarrow>
          (if status s \<in> set SessionStatus_status_literals
           then Inr \<lparr> ss_subtask_id = subtask_id, ss_session_id = session_id s,
                      ss_status = status s, ss_created_at = created_at s,
                      ss_updated_at = Some now, ss_message_count = length (messages s),
                      ss_metadata = None \<rparr>
           else Inl ValidationError))"

definition cancel_session :: "string \<Rightarrow> sessions \<Rightarrow> (route_error + (string \<times> json) list) \<times> sessions" where
  "cancel_session subtask_id reg =
     (case reg subtask_id of
        None \<Rightarrow> (Inl (HTTPException 404 ''Subtask not found''), reg)
      | Some s \<Rightarrow>
          (Inr [(''status'', JStr ''cancelled''), (''subtask_id'', JStr subtask_id)],
           reg(subtask_id \<mapsto> s\<lparr>status := ''cancelled''\<rparr>)))"

section \<open>Histories of the registry\<close>

text \<open>
  Everything that touches \<open>app_state["active_sessions"]\<close>: the three routes and the
  last step of a stream. A history is a list of these, applied in order from the empty
  registry the application starts with.
\<close>

datatype op =
    POST string request_clock ChatRequest
  | GET string datetime
  | DELETE string
  | STREAM_END stream_env agent "(string \<times> string) list" string string

fun apply_op :: "op \<Rightarrow> sessions \<Rightarrow> sessions" where
  "apply_op (POST uuid now request) reg = snd (start_chat uuid now request reg)"
| "apply_op (GET subtask_id now) reg = reg"
| "apply_op (DELETE subtask_id) reg = snd (cancel_session subtask_id reg)"
| "apply_op (STREAM_END env agent msgs thread_id subtask_id) reg =
     sessions_after (stream_chat_events env agent msgs thread_id subtask_id reg)"

definition run_ops :: "op list \<Rightarrow> sessions \<Rightarrow> sessions" where
  "run_ops ops reg = fold apply_op ops reg"

text \<open>A later \<open>POST\<close> whose \<open>uuid4\<close> drew the id \<open>k\<close> again replaces the entry of \<open>k\<close>.\<close>

fun posts_to :: "string \<Rightarrow> op \<Rightarrow> bool" where
  "posts_to k (POST uuid now request) = (uuid = k)"
| "posts_to k (GET subtask_id now) = False"
| "posts_to k (DELETE subtask_id) = False"
| "posts_to k (STREAM_END env agent msgs thread_id subtask_id) = False"

text \<open>The status values the routes and the stream ever write.\<close>

definition written_statuses :: "string list" where
  "written_statuses = [''running'', ''completed'', ''error'', ''cancelled'']"

definition valid_statuses :: "sessions \<Rightarrow> bool" where
  "valid_statuses reg = (\<forall>k s. reg k = Some s \<longrightarrow> status s \<in> set written_statuses)"

section \<open>ChatAgent.stream (agent.py)\<close>

text \<open>
  The producer of the command-line loop: \<open>stream(messages, show_thinking=False)\<close>, as
  \<open>cli.py\<close> calls it. The language model, the graph engine and the tools are
  external: \<open>initialize\<close> is the text of the exception \<open>await self.initialize()\<close>
  raised, if it raised; one run of \<open>graph.astream\<close> is the list of states it yields
  (the value under \<open>"messages"\<close>, if the key is there) and its ending; a tool
  invocation returns, raises an \<open>Exception\<close> or is interrupted by a cancellation, which
  \<open>except Exception\<close> does not catch. \<open>py_str\<close> is Python's \<open>str\<close> of a tool's
  arguments.
\<close>

record tool_call =
  tc_name :: string
  tc_args :: json
  tc_id :: string

datatype lc_message =
    SystemMessage string
  | HumanMessage string
  | AIMessage string "tool_call list"

datatype tool_outcome = Returned json | Failed string | Interrupted

record graph_run =
  graph_events :: "lc_message list option list"
  graph_ending :: ending

record agent_env =
  initialize :: "string option"
  graph :: "lc_message list \<Rightarrow> graph_run"
  tool_executor :: "string \<Rightarrow> json \<Rightarrow> tool_outcome"
  py_str :: "json \<Rightarrow> string"

fun to_lc_messages :: "(string \<times> string) list \<Rightarrow> lc_message list" where
  "to_lc_messages [] = []"
| "to_lc_messages ((r, c) # ms) =
     (if r = ''system'' then [SystemMessage c]
      else if r = ''user'' then [HumanMessage c]
      else if r = ''assistant'' then [AIMessage c []]
      else []) @ to_lc_messages ms"

text \<open>The three literals of the f-strings, as UTF-8.\<close>

definition thinking_prefix :: string where
  "thinking_prefix =
     [CHR 0xE8, CHR 0xB0, CHR 0x83, CHR 0xE7, CHR 0x94, CHR 0xA8, CHR 0xE5, CHR 0xB7,
      CHR 0xA5, CHR 0xE5, CHR 0x85, CHR 0xB7, CHR 0x20]"

definition thinking_infix :: string where
  "thinking_infix =
     [CHR 0x20, CHR 0xE5, CHR 0x8F, CHR 0x82, CHR 0xE6, CHR 0x95, CHR 0xB0, CHR 0x3A,
      CHR 0x20]"

definition tool_error_prefix :: string where
  "tool_error_prefix =
     [CHR 0xE5, CHR 0xB7, CHR 0xA5, CHR 0xE5, CHR 0x85, CHR 0xB7, CHR 0xE6, CHR 0x89,
      CHR 0xA7, CHR 0xE8, CHR 0xA1, CHR 0x8C, CHR 0xE9, CHR 0x94, CHR 0x99, CHR 0xE8,
      CHR 0xAF, CHR 0xAF, CHR 0x3A, CHR 0x20]"

text \<open>
  \<open>for tool_call in last_message.tool_calls\<close>: the events of the calls, and whether a
  cancellation cut the loop short.
\<close>

fun tool_call_events :: "agent_env \<Rightarrow> bool \<Rightarrow> tool_call list \<Rightarrow> (string \<times> json) list list \<times> bool" where
  "tool_call_events a show_thinking [] = ([], False)"
| "tool_call_events a show_thinking (tc # tcs) =
     (let announce =
            (if show_thinking
             then [[(''type'', JStr ''thinking''),
                    (''data'', JObj [(''text'',
                       JStr (thinking_prefix @ tc_name tc @ thinking_infix @ py_str a (tc_args tc)))])]]
             else [])
            @ [[(''type'', JStr ''tool_call''),
                (''data'', JObj [(''tool'', JStr (tc_name tc)), (''input'', tc_args tc)])]]
      in case tool_executor a (tc_name tc) (tc_args tc) of
           Interrupted \<Rightarrow> (announce, True)
         | Returned result \<Rightarrow>
             (case tool_call_events a show_thinking tcs of
                (evs, stopped) \<Rightarrow>
                  (announce @ [[(''type'', JStr ''tool_result''), (''data'', JObj [(''result'', result)])]] @ evs,
                   stopped))
         | Failed e \<Rightarrow>
             (case tool_call_events a show_thinking tcs of
                (evs, stopped) \<Rightarrow>
                  (announce @ [[(''type'', JStr ''error''),
                                (''data'', JObj [(''message'', JStr (tool_error_prefix @ e))])]] @ evs,
                   stopped)))"

text \<open>The body of \<open>async for event in self.graph.astream(...)\<close> for one state.\<close>

definition state_events :: "agent_env \<Rightarrow> bool \<Rightarrow> lc_message list option \<Rightarrow> (string \<times> json) list list \<times> bool" where
  "state_events a show_thinking ev =
     (case ev of
        None \<Rightarrow> ([], False)
      | Some ms \<Rightarrow>
          (if ms = [] then ([], False)
           else (case last ms of
                   AIMessage c tcs \<Rightarrow>
                     (if tcs \<noteq> [] then tool_call_events a show_thinking tcs
                      else if c \<noteq> [] then
                        ([[(''type'', JStr ''content''), (''data'', JObj [(''text'', JStr c)])]], False)
                      else ([], False))
                 | HumanMessage c \<Rightarrow> ([], False)
                 | SystemMessage c \<Rightarrow> ([], False))))"

fun graph_loop :: "agent_env \<Rightarrow> bool \<Rightarrow> lc_message list option list \<Rightarrow> ending \<Rightarrow> producer_run" where
  "graph_loop a show_thinking [] fin = \<lparr> yielded = [], ending = fin \<rparr>"
| "graph_loop a show_thinking (ev # evs) fin =
     (case state_events a show_thinking ev of
        (out, True) \<Rightarrow> \<lparr> yielded = out, ending = Cancelled_Error \<rparr>
      | (out, False) \<Rightarrow>
          (let r = graph_loop a show_thinking evs fin
           in \<lparr> yielded = out @ yielded r, ending = ending r \<rparr>))"

definition ChatAgent_stream :: "agent_env \<Rightarrow> (string \<times> string) list \<Rightarrow> bool \<Rightarrow> producer_run" where
  "ChatAgent_stream a msgs show_thinking =
     (case initialize a of
        Some e \<Rightarrow> \<lparr> yielded = [], ending = Raises e \<rparr>
      | None \<Rightarrow>
          (let run = graph a (to_lc_messages msgs)
           in graph_loop a show_thinking (graph_events run) (graph_ending run)))"

section \<open>The statements of the specification, in its words\<close>

text \<open>The stream ends with its one terminal event: none of the three kinds before the last.\<close>

definition terminal_kinds :: "string list" where
  "terminal_kinds = [''complete'', ''cancelled'', ''error'']"

definition spec_single_terminal :: "ChatEvent list \<Rightarrow> bool" where
  "spec_single_terminal evs =
     (evs \<noteq> [] \<and> event_type (last evs) \<in> set terminal_kinds
      \<and> list_all (\<lambda>e. event_type e \<notin> set terminal_kinds) (butlast evs))"

text \<open>The wire form \<open>{event: <kind-name>, data: <payload>}\<close>.\<close>

definition spec_frame :: "ChatEvent \<Rightarrow> (string \<times> json) list" where
  "spec_frame e = [(''event'', JStr (event_type e)), (''data'', JObj (data e))]"

text \<open>A terminal status is final: an operation leaves the status of a terminal session as it was.\<close>

definition terminal_statuses :: "string list" where
  "terminal_statuses = [''completed'', ''error'', ''cancelled'']"

definition spec_terminal_final :: "op \<Rightarrow> sessions \<Rightarrow> string \<Rightarrow> bool" where
  "spec_terminal_final x reg k =
     (case reg k of
        None \<Rightarrow> True
      | Some s \<Rightarrow>
          (if status s \<in> set terminal_statuses
           then (case apply_op x reg k of None \<Rightarrow> False | Some s' \<Rightarrow> status s' = status s)
           else True))"

section \<open>The event buffer (streaming/buffer.py)\<close>

text \<open>
  Modelled from the spec: \<open>streaming/buffer.py\<close> (class \<open>EventBuffer\<close>) is not among the
  sources, only its import in \<open>streaming/__init__.py\<close>. The specification gives: a
  bounded, ordered store of the events of one session; \<open>append\<close> assigns the next
  offset, stores the event and returns it with the offset, and fails with
  \<open>StreamCompletedError\<close> once the buffer is closed to new writes; when the capacity is
  exceeded the oldest event is dropped and the base offset is incremented; \<open>readFrom\<close>
  gives the events at or after an offset and fails with \<open>BufferOverflowError\<close> for an
  offset older than the base.
\<close>

datatype stream_error = StreamCompletedError | BufferOverflowError

record 'e EventBuffer =
  capacity :: nat
  base_offset :: nat
  next_offset :: nat
  events :: "(nat \<times> 'e) list"
  closed :: bool

definition fresh_buffer :: "nat \<Rightarrow> 'e EventBuffer" where
  "fresh_buffer cap =
     \<lparr> capacity = cap, base_offset = 0, next_offset = 0, events = [], closed = False \<rparr>"

definition buffer_append :: "'e \<Rightarrow> 'e EventBuffer \<Rightarrow> stream_error + ((nat \<times> 'e) \<times> 'e EventBuffer)" where
  "buffer_append e b =
     (if closed b then Inl StreamCompletedError
      else
        (let stored_event = (next_offset b, e);
             evs = events b @ [stored_event]
         in if capacity b < length evs
            then Inr (stored_event,
                      b\<lparr> events := tl evs, base_offset := base_offset b + 1,
                         next_offset := next_offset b + 1 \<rparr>)
            else Inr (stored_event, b\<lparr> events := evs, next_offset := next_offset b + 1 \<rparr>)))"

definition readFrom :: "nat \<Rightarrow> 'e EventBuffer \<Rightarrow> stream_error + (nat \<times> 'e) list" where
  "readFrom offset b =
     (if offset < base_offset b then Inl BufferOverflowError
      else Inr (filter (\<lambda>(i, e). offset \<le> i) (events b)))"

text \<open>Publishing a sequence: the events as \<open>append\<close> returned them, and the buffer after.\<close>

fun publish_all :: "'e list \<Rightarrow> 'e EventBuffer \<Rightarrow> stream_error + ((nat \<times> 'e) list \<times> 'e EventBuffer)" where
  "publish_all [] b = Inr ([], b)"
| "publish_all (e # es) b =
     (case buffer_append e b of
        Inl err \<Rightarrow> Inl err
      | Inr (stored_event, b') \<Rightarrow>
          (case publish_all es b' of
             Inl err \<Rightarrow> Inl err
           | Inr (rest, b'') \<Rightarrow> Inr (stored_event # rest, b'')))"

definition stored_offsets :: "'e EventBuffer \<Rightarrow> nat list" where
  "stored_offsets b = map fst (events b)"

text \<open>
  The specification's property of the offsets: after publishing to a fresh buffer, the
  stored offsets are \<open>0..N-1\<close>.
\<close>

definition spec_offsets_from_zero :: "nat \<Rightarrow> 'e list \<Rightarrow> bool" where
  "spec_offsets_from_zero cap es =
     (case publish_all es (fresh_buffer cap) of
        Inl err \<Rightarrow> False
      | Inr (returned, b) \<Rightarrow> stored_offsets b = [0..<length es])"

text \<open>
  What holds of an open buffer between appends: the stored offsets are the run from the
  base to the next offset, and the base is as far behind the next offset as the capacity
  allows.
\<close>

definition buffer_invar :: "'e EventBuffer \<Rightarrow> bool" where
  "buffer_invar b =
     (\<not> closed b \<and> base_offset b = next_offset b - capacity b
      \<and> stored_offsets b = [base_offset b..<next_offset b])"

text \<open>The kinds \<open>ChatAgent.stream\<close> of \<open>agent.py\<close> yields.\<close>

definition producer_kinds :: "string list" where
  "producer_kinds = [''content'', ''tool_call'', ''tool_result'', ''thinking'', ''error'']"

text \<open>The two reads \<open>stream_chat_events\<close> makes of a yielded dict.\<close>

definition raw_type :: "(string \<times> json) list \<Rightarrow> json" where
  "raw_type event = dict_get event ''type'' (JStr [])"

definition raw_data :: "(string \<times> json) list \<Rightarrow> json" where
  "raw_data event = dict_get event ''data'' (JObj [])"

text \<open>
  The yielded dicts \<open>ChatEvent(...)\<close> accepts: the type read is one of the seven
  literals and the data read is a dict.
\<close>

definition accepted :: "(string \<times> json) list \<Rightarrow> bool" where
  "accepted event =
     (case raw_type event of
        JStr k \<Rightarrow> (case raw_data event of JObj payload \<Rightarrow> k \<in> set event_type_literals | _ \<Rightarrow> False)
      | _ \<Rightarrow> False)"

text \<open>
  Modelled from the spec: the producer of the route, \<open>ChatAgent.stream\<close> of
  \<open>agent/agent.py\<close> (the import of \<open>sse.py\<close>), is not among the sources. The
  specification (section 6) gives its interface: an asynchronous sequence of events
  \<open>{type, data}\<close> with \<open>type\<close> in the kind set of the wire format, \<open>error\<close> among
  them.
\<close>

definition spec_producer_event :: "(string \<times> json) list \<Rightarrow> bool" where
  "spec_producer_event event =
     (case map_of event ''type'' of
        Some (JStr k) \<Rightarrow>
          (case map_of event ''data'' of
             Some (JObj payload) \<Rightarrow> k \<in> set event_type_literals
           | _ \<Rightarrow> False)
      | _ \<Rightarrow> False)"

section \<open>The registry under every history\<close>

lemma valid_statuses_set_status:
  "valid_statuses reg \<Longrightarrow> v \<in> set written_statuses \<Longrightarrow>
   valid_statuses (set_status_if_present k v reg)"
  unfolding valid_statuses_def set_status_if_present_def
  by (auto split: option.splits)

lemma valid_statuses_stream:
  "valid_statuses reg \<Longrightarrow>
   valid_statuses (sessions_after (stream_chat_events env agent msgs thread_id subtask_id reg))"
  unfolding stream_chat_events_def
  by (auto simp: written_statuses_def split: prod.splits option.splits ending.splits
           intro!: valid_statuses_set_status)

lemma valid_statuses_apply_op: "valid_statuses reg \<Longrightarrow> valid_statuses (apply_op x reg)"
proof (cases x)
  case (POST uuid now request)
  assume "valid_statuses reg"
  then show ?thesis
    unfolding POST valid_statuses_def by (auto simp: start_chat_def Let_def written_statuses_def)
next
  case (GET k now)
  assume "valid_statuses reg"
  then show ?thesis unfolding GET by simp
next
  case (DELETE k)
  assume "valid_statuses reg"
  then show ?thesis
    unfolding DELETE valid_statuses_def
    by (auto simp: cancel_session_def written_statuses_def split: option.splits)
next
  case (STREAM_END env agent msgs thread_id k)
  assume "valid_statuses reg"
  then show ?thesis unfolding STREAM_END by (simp add: valid_statuses_stream)
qed

lemma valid_statuses_run_ops: "valid_statuses reg \<Longrightarrow> valid_statuses (run_ops ops reg)"
  unfolding run_ops_def
  by (induction ops arbitrary: reg) (auto simp: valid_statuses_apply_op)

lemma valid_statuses_empty: "valid_statuses Map.empty"
  by (simp add: valid_statuses_def)

lemma run_ops_append: "run_ops (xs @ ys) reg = run_ops ys (run_ops xs reg)"
  by (simp add: run_ops_def)

lemma run_ops_Cons: "run_ops (x # xs) reg = run_ops xs (apply_op x reg)"
  by (simp add: run_ops_def)

lemma set_status_if_present_messages:
  "reg k = Some s \<Longrightarrow> \<exists>s'. set_status_if_present j v reg k = Some s' \<and> messages s' = messages s"
  by (auto simp: set_status_if_present_def split: option.splits)

lemma apply_op_keeps_messages:
  assumes "reg k = Some s" and "\<not> posts_to k x"
  shows "\<exists>s'. apply_op x reg k = Some s' \<and> messages s' = messages s"
proof (cases x)
  case (POST uuid now request)
  with assms show ?thesis by (auto simp: start_chat_def Let_def)
next
  case (GET j now)
  with assms show ?thesis by simp
next
  case (DELETE j)
  with assms show ?thesis by (auto simp: cancel_session_def split: option.splits)
next
  case (STREAM_END env agent msgs thread_id j)
  with assms show ?thesis
    by (auto simp: stream_chat_events_def set_status_if_present_messages
             split: prod.splits option.splits ending.splits)
qed

lemma run_ops_keeps_messages:
  "reg k = Some s \<Longrightarrow> list_all (\<lambda>x. \<not> posts_to k x) ops \<Longrightarrow>
   \<exists>s'. run_ops ops reg k = Some s' \<and> messages s' = messages s"
proof (induction ops arbitrary: reg s)
  case Nil
  then show ?case by (simp add: run_ops_def)
next
  case (Cons x xs)
  from Cons.prems have nx: "\<not> posts_to k x" and nxs: "list_all (\<lambda>x. \<not> posts_to k x) xs"
    by simp_all
  from Cons.prems(1) nx have "\<exists>s'. apply_op x reg k = Some s' \<and> messages s' = messages s"
    by (rule apply_op_keeps_messages)
  then obtain s1 where s1: "apply_op x reg k = Some s1" "messages s1 = messages s" by blast
  from s1(1) nxs have "\<exists>s'. run_ops xs (apply_op x reg) k = Some s' \<and> messages s' = messages s1"
    by (rule Cons.IH)
  with s1(2) show ?case
    by (simp add: run_ops_Cons)
qed

lemma apply_op_keeps_known: "reg k \<noteq> None \<Longrightarrow> apply_op x reg k \<noteq> None"
proof (cases x)
  case (POST uuid now request)
  assume "reg k \<noteq> None"
  with POST show ?thesis by (simp add: start_chat_def Let_def)
next
  case (GET j now)
  assume "reg k \<noteq> None"
  with GET show ?thesis by simp
next
  case (DELETE j)
  assume "reg k \<noteq> None"
  with DELETE show ?thesis by (auto simp: cancel_session_def split: option.splits)
next
  case (STREAM_END env agent msgs thread_id j)
  assume "reg k \<noteq> None"
  with STREAM_END show ?thesis
    by (auto simp: stream_chat_events_def set_status_if_present_def
             split: prod.splits option.splits ending.splits)
qed

lemma run_ops_keeps_known: "reg k \<noteq> None \<Longrightarrow> run_ops ops reg k \<noteq> None"
proof (induction ops arbitrary: reg)
  case Nil
  then show ?case by (simp add: run_ops_def)
next
  case (Cons x xs)
  from Cons.prems have "apply_op x reg k \<noteq> None" by (rule apply_op_keeps_known)
  then have "run_ops xs (apply_op x reg) k \<noteq> None" by (rule Cons.IH)
  then show ?case by (simp add: run_ops_Cons)
qed

lemma posted_stays_known: "run_ops (earlier @ POST uuid now request # later) Map.empty uuid \<noteq> None"
proof -
  have "apply_op (POST uuid now request) (run_ops earlier Map.empty) uuid \<noteq> None"
    by (simp add: start_chat_def Let_def)
  then have "run_ops later (apply_op (POST uuid now request) (run_ops earlier Map.empty)) uuid \<noteq> None"
    by (rule run_ops_keeps_known)
  then show ?thesis by (simp add: run_ops_append run_ops_Cons)
qed

lemma status_update_idem: "(s\<lparr>status := v\<rparr> = s) = (status s = v)"
  by (cases s) auto

section \<open>The events of a stream\<close>

lemma new_ChatEvent_accepted:
  "accepted ev \<Longrightarrow>
   \<exists>ce. new_ChatEvent env i (raw_type ev) (raw_data ev) = Inr ce
       \<and> JStr (event_type ce) = raw_type ev \<and> JObj (data ce) = raw_data ev
       \<and> timestamp ce = clock env i"
  by (auto simp: accepted_def new_ChatEvent_def split: json.splits)

lemma new_ChatEvent_refused:
  "\<not> accepted ev \<Longrightarrow>
   new_ChatEvent env i (raw_type ev) (raw_data ev) = Inl (validation_text env (raw_type ev) (raw_data ev))"
  by (auto simp: accepted_def new_ChatEvent_def split: json.splits)

lemma forward_takeWhile:
  "forward env i evs = (out, r) \<Longrightarrow>
   map (\<lambda>e. (JStr (event_type e), JObj (data e))) out
     = map (\<lambda>ev. (raw_type ev, raw_data ev)) (takeWhile accepted evs)
   \<and> map timestamp out = map (clock env) [i..<i + length out]
   \<and> r = (if list_all accepted evs then None
          else Some (validation_text env (raw_type (hd (dropWhile accepted evs)))
                                         (raw_data (hd (dropWhile accepted evs)))))"
proof (induction evs arbitrary: i out r)
  case Nil
  then show ?case by simp
next
  case (Cons ev evs)
  show ?case
  proof (cases "accepted ev")
    case False
    from new_ChatEvent_refused [OF False, of env i] Cons.prems
    have "out = []" and "r = Some (validation_text env (raw_type ev) (raw_data ev))"
      by (auto simp: raw_type_def raw_data_def)
    with False show ?thesis by simp
  next
    case True
    from new_ChatEvent_accepted [OF True, of env i]
    obtain ce where ce: "new_ChatEvent env i (raw_type ev) (raw_data ev) = Inr ce"
      "JStr (event_type ce) = raw_type ev" "JObj (data ce) = raw_data ev"
      "timestamp ce = clock env i" by blast
    obtain out' r' where rest: "forward env (Suc i) evs = (out', r')"
      by (cases "forward env (Suc i) evs")
    from Cons.prems ce(1) rest have out: "out = ce # out'" and r: "r = r'"
      by (simp_all add: raw_type_def raw_data_def)
    from Cons.IH [OF rest]
    have ih: "map (\<lambda>e. (JStr (event_type e), JObj (data e))) out'
          = map (\<lambda>ev. (raw_type ev, raw_data ev)) (takeWhile accepted evs)"
       "map timestamp out' = map (clock env) [Suc i..<Suc i + length out']"
       "r' = (if list_all accepted evs then None
          else Some (validation_text env (raw_type (hd (dropWhile accepted evs)))
                                         (raw_data (hd (dropWhile accepted evs)))))"
      by simp_all
    have "[i..<i + length (ce # out')] = i # [Suc i..<Suc i + length out']"
      by (simp add: upt_conv_Cons del: upt_Suc)
    then have ts: "map timestamp (ce # out') = map (clock env) [i..<i + length (ce # out')]"
      using ih(2) ce(4) by (simp del: upt_Suc)
    from True ih(1) ih(3) ce(2) ce(3) ts out r show ?thesis by simp
  qed
qed

lemma spec_single_terminal_snoc:
  "event_type t \<in> set terminal_kinds \<Longrightarrow>
   spec_single_terminal (out @ [t]) = list_all (\<lambda>e. event_type e \<notin> set terminal_kinds) out"
  by (simp add: spec_single_terminal_def)

lemma forwarded_kinds:
  assumes "map (\<lambda>e. (JStr (event_type e), JObj (data e))) out = map (\<lambda>ev. (raw_type ev, raw_data ev)) evs"
  shows "list_all (\<lambda>e. event_type e \<notin> set ks) out = list_all (\<lambda>ev. raw_type ev \<notin> JStr ` set ks) evs"
proof -
  from assms have "map fst (map (\<lambda>e. (JStr (event_type e), JObj (data e))) out)
      = map fst (map (\<lambda>ev. (raw_type ev, raw_data ev)) evs)" by simp
  then have eq: "map (\<lambda>e. JStr (event_type e)) out = map raw_type evs"
    by (simp add: comp_def)
  have "list_all (\<lambda>e. event_type e \<notin> set ks) out
      = list_all (\<lambda>j. j \<notin> JStr ` set ks) (map (\<lambda>e. JStr (event_type e)) out)"
    by (auto simp: list_all_iff)
  also have "\<dots> = list_all (\<lambda>j. j \<notin> JStr ` set ks) (map raw_type evs)"
    by (simp only: eq)
  also have "\<dots> = list_all (\<lambda>ev. raw_type ev \<notin> JStr ` set ks) evs"
    by (simp add: list_all_iff)
  finally show ?thesis .
qed

text \<open>
  \<open>ChatAgent.stream\<close> of \<open>agent.py\<close>, the producer of the command-line loop: it
  yields none of the kinds \<open>complete\<close> and \<open>cancelled\<close>, and it reports a tool that
  failed as an \<open>error\<close> event and goes on with the answer of the model (lines 191-195).
  \<open>sse.py\<close> cannot run this producer, since it passes \<open>thread_id\<close>.
\<close>

lemma raw_type_first: "raw_type ((''type'', t) # rest) = t"
  by (simp add: raw_type_def dict_get_def)

lemma tool_call_events_kinds:
  "list_all (\<lambda>ev. raw_type ev \<in> JStr ` set producer_kinds) (fst (tool_call_events a st tcs))"
  by (induction tcs)
     (auto simp: Let_def raw_type_first producer_kinds_def
           split: tool_outcome.splits prod.splits)

lemma state_events_kinds:
  "list_all (\<lambda>ev. raw_type ev \<in> JStr ` set producer_kinds) (fst (state_events a st ev))"
proof -
  have "raw_type [(''type'', JStr ''content''), (''data'', d)] \<in> JStr ` set producer_kinds" for d
    by (simp add: raw_type_first producer_kinds_def)
  then show ?thesis
    by (simp add: state_events_def tool_call_events_kinds split: option.splits lc_message.splits)
qed

lemma graph_loop_kinds:
  "list_all (\<lambda>ev. raw_type ev \<in> JStr ` set producer_kinds) (yielded (graph_loop a st evs fin))"
proof (induction evs)
  case Nil
  then show ?case by simp
next
  case (Cons ev evs)
  obtain out stopped where se: "state_events a st ev = (out, stopped)"
    by (cases "state_events a st ev")
  with state_events_kinds [of a st ev]
  have "list_all (\<lambda>ev. raw_type ev \<in> JStr ` set producer_kinds) out" by simp
  with Cons se show ?case by (cases stopped) (simp_all add: Let_def)
qed

lemma ChatAgent_stream_kinds:
  "list_all (\<lambda>ev. raw_type ev \<in> JStr ` set producer_kinds) (yielded (ChatAgent_stream a msgs st))"
  by (simp add: ChatAgent_stream_def Let_def graph_loop_kinds split: option.splits)

lemma ChatAgent_stream_reports_and_goes_on:
  "ChatAgent_stream
     \<lparr>initialize = None,
      graph = (\<lambda>ms. \<lparr>graph_events =
                 [Some (ms @ [AIMessage [] [\<lparr>tc_name = ''calculator'',
                                             tc_args = JObj [(''expression'', JStr ''500 / 0'')],
                                             tc_id = ''call-1''\<rparr>]]),
                  Some (ms @ [AIMessage ''It is undefined.'' []])],
                graph_ending = Exhausted\<rparr>),
      tool_executor = (\<lambda>name args. Failed ''division by zero''),
      py_str = (\<lambda>v. [])\<rparr>
     [(''user'', ''What is 500 / 0?'')] False
   = \<lparr>yielded =
        [[(''type'', JStr ''tool_call''),
          (''data'', JObj [(''tool'', JStr ''calculator''),
                           (''input'', JObj [(''expression'', JStr ''500 / 0'')])])],
         [(''type'', JStr ''error''),
          (''data'', JObj [(''message'', JStr (tool_error_prefix @ ''division by zero''))])],
         [(''type'', JStr ''content''), (''data'', JObj [(''text'', JStr ''It is undefined.'')])]],
      ending = Exhausted\<rparr>"
  by (simp add: ChatAgent_stream_def Let_def state_events_def)

text \<open>
  A producer within the interface of the specification that reports a failed tool the way
  the producers of this repository do, as an event of kind \<open>error\<close>, and then is
  exhausted. \<open>stream_chat_events\<close> forwards the event like any other and, the loop
  over, adds \<open>complete\<close>: the stream is \<open>tool_call\<close>, \<open>error\<close>, \<open>complete\<close>. An event
  follows the \<open>error\<close> event, and the stream holds two events of terminal kinds.
\<close>

theorem error_event_is_followed:
  "list_all spec_producer_event
     (yielded ((\<lambda>msgs thread_id.
        \<lparr>yielded =
           [[(''type'', JStr ''tool_call''),
             (''data'', JObj [(''tool'', JStr ''calculator''),
                              (''input'', JObj [(''expression'', JStr ''500 / 0'')])])],
            [(''type'', JStr ''error''),
             (''data'', JObj [(''message'', JStr ''division by zero'')])]],
         ending = Exhausted\<rparr>) [(''user'', ''What is 500 / 0?'')] ''s''))
   \<and> map event_type (emitted (stream_chat_events
        \<lparr>clock = (\<lambda>n. int n), validation_text = (\<lambda>ty d. ''invalid'')\<rparr>
        (\<lambda>msgs thread_id.
        \<lparr>yielded =
           [[(''type'', JStr ''tool_call''),
             (''data'', JObj [(''tool'', JStr ''calculator''),
                              (''input'', JObj [(''expression'', JStr ''500 / 0'')])])],
            [(''type'', JStr ''error''),
             (''data'', JObj [(''message'', JStr ''division by zero'')])]],
         ending = Exhausted\<rparr>)
        [(''user'', ''What is 500 / 0?'')] ''s'' ''id-1'' Map.empty))
     = [''tool_call'', ''error'', ''complete'']
   \<and> \<not> spec_single_terminal (emitted (stream_chat_events
        \<lparr>clock = (\<lambda>n. int n), validation_text = (\<lambda>ty d. ''invalid'')\<rparr>
        (\<lambda>msgs thread_id.
        \<lparr>yielded =
           [[(''type'', JStr ''tool_call''),
             (''data'', JObj [(''tool'', JStr ''calculator''),
                              (''input'', JObj [(''expression'', JStr ''500 / 0'')])])],
            [(''type'', JStr ''error''),
             (''data'', JObj [(''message'', JStr ''division by zero'')])]],
         ending = Exhausted\<rparr>)
        [(''user'', ''What is 500 / 0?'')] ''s'' ''id-1'' Map.empty))"
  by (simp add: stream_chat_events_def new_ChatEvent_def dict_get_def event_type_literals_def
        terminal_event_def spec_single_terminal_def terminal_kinds_def spec_producer_event_def)

text \<open>
  C1, as the code has it. A stream of \<open>stream_chat_events\<close> that its consumer reads to
  the end is the events of the producer, in order, kind and payload unchanged, up to the
  first that \<open>ChatEvent\<close> does not accept, and then exactly one event that the pipeline
  adds and that is the last: \<open>complete\<close> when the producer is exhausted, \<open>cancelled\<close> on
  \<open>asyncio.CancelledError\<close>, which alone is re-raised, \<open>error\<close> with the message when
  the producer raises or a yielded event is not accepted. The pipeline does not stop at a
  forwarded event: the stream has a single event of a terminal kind, its last, exactly
  when no forwarded event of the producer is of kind \<open>error\<close>, \<open>complete\<close> or
  \<open>cancelled\<close>.
\<close>

theorem stream_ends_with_own_terminal_event:
  "\<exists>out t.
      emitted (stream_chat_events env agent msgs thread_id subtask_id reg) = out @ [t]
    \<and> map (\<lambda>e. (JStr (event_type e), JObj (data e))) out
        = map (\<lambda>ev. (raw_type ev, raw_data ev)) (takeWhile accepted (yielded (agent msgs thread_id)))
    \<and> map timestamp out = map (clock env) [0..<length out]
    \<and> timestamp t = clock env (length out)
    \<and> (event_type t, data t) =
        (if list_all accepted (yielded (agent msgs thread_id))
         then (case ending (agent msgs thread_id) of
                 Exhausted \<Rightarrow> (''complete'', [])
               | Cancelled_Error \<Rightarrow> (''cancelled'', [])
               | Raises m \<Rightarrow> (''error'', [(''message'', JStr m)]))
         else (''error'',
               [(''message'',
                 JStr (validation_text env
                         (raw_type (hd (dropWhile accepted (yielded (agent msgs thread_id)))))
                         (raw_data (hd (dropWhile accepted (yielded (agent msgs thread_id)))))))]))
    \<and> event_type t \<in> set terminal_kinds
    \<and> reraised (stream_chat_events env agent msgs thread_id subtask_id reg)
        = (list_all accepted (yielded (agent msgs thread_id))
           \<and> ending (agent msgs thread_id) = Cancelled_Error)
    \<and> spec_single_terminal (emitted (stream_chat_events env agent msgs thread_id subtask_id reg))
        = list_all (\<lambda>ev. raw_type ev \<notin> JStr ` set terminal_kinds)
            (takeWhile accepted (yielded (agent msgs thread_id)))"
proof -
  let ?R = "stream_chat_events env agent msgs thread_id subtask_id reg"
  let ?ys = "yielded (agent msgs thread_id)"
  obtain out r where fw: "forward env 0 ?ys = (out, r)"
    by (cases "forward env 0 ?ys")
  from forward_takeWhile [OF fw]
  have same: "map (\<lambda>e. (JStr (event_type e), JObj (data e))) out
        = map (\<lambda>ev. (raw_type ev, raw_data ev)) (takeWhile accepted ?ys)"
    and ts: "map timestamp out = map (clock env) [0..<length out]"
    and r: "r = (if list_all accepted ?ys then None
          else Some (validation_text env (raw_type (hd (dropWhile accepted ?ys)))
                                         (raw_data (hd (dropWhile accepted ?ys)))))"
    by simp_all
  define t where "t = last (emitted ?R)"
  have em: "emitted ?R = out @ [t]"
    unfolding t_def using fw
    by (auto simp: stream_chat_events_def split: option.splits ending.splits)
  have tt: "timestamp t = clock env (length out)"
    unfolding t_def using fw
    by (auto simp: stream_chat_events_def terminal_event_def split: option.splits ending.splits)
  have kd: "(event_type t, data t) =
        (if list_all accepted ?ys
         then (case ending (agent msgs thread_id) of
                 Exhausted \<Rightarrow> (''complete'', [])
               | Cancelled_Error \<Rightarrow> (''cancelled'', [])
               | Raises m \<Rightarrow> (''error'', [(''message'', JStr m)]))
         else (''error'',
               [(''message'',
                 JStr (validation_text env (raw_type (hd (dropWhile accepted ?ys)))
                                           (raw_data (hd (dropWhile accepted ?ys)))))]))"
    unfolding t_def using fw r
    by (auto simp: stream_chat_events_def terminal_event_def split: option.splits ending.splits if_splits)
  from kd have kind: "event_type t \<in> set terminal_kinds"
    by (auto simp: terminal_kinds_def split: ending.splits if_splits)
  have rr: "reraised ?R = (list_all accepted ?ys \<and> ending (agent msgs thread_id) = Cancelled_Error)"
    using fw r
    by (auto simp: stream_chat_events_def split: option.splits ending.splits if_splits)
  have "spec_single_terminal (emitted ?R) = list_all (\<lambda>e. event_type e \<notin> set terminal_kinds) out"
    unfolding em by (rule spec_single_terminal_snoc [OF kind])
  also have "\<dots> = list_all (\<lambda>ev. raw_type ev \<notin> JStr ` set terminal_kinds) (takeWhile accepted ?ys)"
    by (rule forwarded_kinds [OF same])
  finally have sp: "spec_single_terminal (emitted ?R)
      = list_all (\<lambda>ev. raw_type ev \<notin> JStr ` set terminal_kinds) (takeWhile accepted ?ys)" .
  from em same ts tt kd kind rr sp show ?thesis by blast
qed

theorem stream_ends_with_own_terminal_event_witness:
  "spec_single_terminal (emitted (stream_chat_events
        \<lparr>clock = (\<lambda>n. int n), validation_text = (\<lambda>ty d. ''invalid'')\<rparr>
        (\<lambda>msgs thread_id.
           \<lparr>yielded = [[(''type'', JStr ''content''), (''data'', JObj [(''text'', JStr ''Hi'')])]],
            ending = Exhausted\<rparr>)
        [(''user'', ''hello'')] ''s'' ''id-1'' Map.empty))
   \<and> \<not> reraised (stream_chat_events
        \<lparr>clock = (\<lambda>n. int n), validation_text = (\<lambda>ty d. ''invalid'')\<rparr>
        (\<lambda>msgs thread_id.
           \<lparr>yielded = [[(''type'', JStr ''content''), (''data'', JObj [(''text'', JStr ''Hi'')])]],
            ending = Exhausted\<rparr>)
        [(''user'', ''hello'')] ''s'' ''id-1'' Map.empty)"
proof -
  let ?agent = "\<lambda>msgs thread_id.
           \<lparr>yielded = [[(''type'', JStr ''content''), (''data'', JObj [(''text'', JStr ''Hi'')])]],
            ending = Exhausted\<rparr>"
  have acc: "accepted [(''type'', JStr ''content''), (''data'', JObj [(''text'', JStr ''Hi'')])]"
    by (simp add: accepted_def raw_type_def raw_data_def dict_get_def event_type_literals_def)
  have kind: "raw_type [(''type'', JStr ''content''), (''data'', JObj [(''text'', JStr ''Hi'')])]
      \<notin> JStr ` set terminal_kinds"
    by (simp add: raw_type_def dict_get_def terminal_kinds_def)
  from stream_ends_with_own_terminal_event
         [where agent = ?agent and msgs = "[(''user'', ''hello'')]" and thread_id = "''s''"
            and env = "\<lparr>clock = (\<lambda>n. int n), validation_text = (\<lambda>ty d. ''invalid'')\<rparr>"
            and subtask_id = "''id-1''" and reg = Map.empty]
       acc kind
  show ?thesis by auto
qed

text \<open>
  C5. When the producer raises an \<open>Exception\<close> with message \<open>msg\<close>, the stream is the
  events forwarded so far and then one \<open>error\<close> event, the last of the stream, whose
  payload is \<open>{"message": msg}\<close> (or the text of the \<open>ValidationError\<close>, had a yielded
  event failed to validate before the producer could raise); nothing is re-raised; the
  status of the session is set to \<open>error\<close>, which for a session that \<open>POST /response\<close>
  stored is always the case, since no history removes an entry.
\<close>

theorem producer_exception_becomes_error_event:
  assumes "ending (agent msgs thread_id) = Raises msg"
  shows "\<exists>out t. emitted (stream_chat_events env agent msgs thread_id subtask_id reg) = out @ [t]
     \<and> out = fst (forward env 0 (yielded (agent msgs thread_id)))
     \<and> event_type t = ''error''
     \<and> data t = [(''message'',
           JStr (case snd (forward env 0 (yielded (agent msgs thread_id))) of None \<Rightarrow> msg | Some v \<Rightarrow> v))]
     \<and> \<not> reraised (stream_chat_events env agent msgs thread_id subtask_id reg)
     \<and> sessions_after (stream_chat_events env agent msgs thread_id subtask_id reg) subtask_id
         = map_option (\<lambda>s. s\<lparr>status := ''error''\<rparr>) (reg subtask_id)
     \<and> map_option status
         (sessions_after (stream_chat_events env agent msgs thread_id uuid
            (run_ops (earlier @ POST uuid now request # later) Map.empty)) uuid) = Some ''error''"
proof -
  have a: "\<exists>out t. emitted (stream_chat_events env agent msgs thread_id subtask_id reg) = out @ [t]
     \<and> out = fst (forward env 0 (yielded (agent msgs thread_id)))
     \<and> event_type t = ''error''
     \<and> data t = [(''message'',
           JStr (case snd (forward env 0 (yielded (agent msgs thread_id))) of None \<Rightarrow> msg | Some v \<Rightarrow> v))]
     \<and> \<not> reraised (stream_chat_events env agent msgs thread_id subtask_id reg)"
    using assms
    by (cases "forward env 0 (yielded (agent msgs thread_id))")
       (auto simp: stream_chat_events_def terminal_event_def split: option.splits)
  have b: "sessions_after (stream_chat_events env agent msgs thread_id k r) k
         = map_option (\<lambda>s. s\<lparr>status := ''error''\<rparr>) (r k)" for k r
    using assms
    by (cases "forward env 0 (yielded (agent msgs thread_id))")
       (auto simp: stream_chat_events_def set_status_if_present_def split: option.splits)
  obtain s where s: "run_ops (earlier @ POST uuid now request # later) Map.empty uuid = Some s"
    using posted_stays_known [of earlier uuid now request later] by blast
  have c: "map_option status
         (sessions_after (stream_chat_events env agent msgs thread_id uuid
            (run_ops (earlier @ POST uuid now request # later) Map.empty)) uuid) = Some ''error''"
    by (simp add: b s)
  from a b [of subtask_id reg] c show ?thesis by blast
qed

theorem producer_exception_becomes_error_event_witness:
  "ending ((\<lambda>msgs thread_id. \<lparr>yielded = [[(''type'', JStr ''content''), (''data'', JObj [(''text'', JStr ''Hi'')])]],
                                 ending = Raises ''boom''\<rparr>) [(''user'', ''hello'')] ''s'') = Raises ''boom''
   \<and> (\<exists>out t. emitted (stream_chat_events \<lparr>clock = (\<lambda>n. int n), validation_text = (\<lambda>ty d. ''invalid'')\<rparr>
          (\<lambda>msgs thread_id. \<lparr>yielded = [[(''type'', JStr ''content''), (''data'', JObj [(''text'', JStr ''Hi'')])]],
                                 ending = Raises ''boom''\<rparr>)
          [(''user'', ''hello'')] ''s'' ''id-1''
          (run_ops [POST ''id-1'' \<lparr>session_stamp = 0, stored_at = 0, answered_at = 0\<rparr> \<lparr>req_messages = [\<lparr>role = USER, content = ''hello'', msg_timestamp = None\<rparr>],
                                              req_session_id = Some ''s'', req_stream = True\<rparr>] Map.empty)) = out @ [t]
        \<and> map event_type out = [''content'']
        \<and> event_type t = ''error'' \<and> data t = [(''message'', JStr ''boom'')])
   \<and> map_option status (sessions_after (stream_chat_events \<lparr>clock = (\<lambda>n. int n), validation_text = (\<lambda>ty d. ''invalid'')\<rparr>
          (\<lambda>msgs thread_id. \<lparr>yielded = [[(''type'', JStr ''content''), (''data'', JObj [(''text'', JStr ''Hi'')])]],
                                 ending = Raises ''boom''\<rparr>)
          [(''user'', ''hello'')] ''s'' ''id-1''
          (run_ops [POST ''id-1'' \<lparr>session_stamp = 0, stored_at = 0, answered_at = 0\<rparr> \<lparr>req_messages = [\<lparr>role = USER, content = ''hello'', msg_timestamp = None\<rparr>],
                                              req_session_id = Some ''s'', req_stream = True\<rparr>] Map.empty)) ''id-1'')
       = Some ''error''"
proof -
  let ?agent = "\<lambda>msgs thread_id. \<lparr>yielded = [[(''type'', JStr ''content''), (''data'', JObj [(''text'', JStr ''Hi'')])]],
                                 ending = Raises ''boom''\<rparr>" 
  let ?env = "\<lparr>clock = (\<lambda>n. int n), validation_text = (\<lambda>ty d. ''invalid'')\<rparr>"
  let ?reg = "run_ops [POST ''id-1'' \<lparr>session_stamp = 0, stored_at = 0, answered_at = 0\<rparr> \<lparr>req_messages = [\<lparr>role = USER, content = ''hello'', msg_timestamp = None\<rparr>],
                                              req_session_id = Some ''s'', req_stream = True\<rparr>] Map.empty"
  have h: "ending (?agent [(''user'', ''hello'')] ''s'') = Raises ''boom''" by simp
  have fw: "forward ?env 0 (yielded (?agent [(''user'', ''hello'')] ''s''))
      = ([\<lparr>event_type = ''content'', data = [(''text'', JStr ''Hi'')], timestamp = 0\<rparr>], None)"
    by (simp add: new_ChatEvent_def dict_get_def event_type_literals_def)
  have reg: "?reg ''id-1'' = Some \<lparr>session_id = ''s'', status = ''running'', created_at = 0,
        messages = [\<lparr>role = USER, content = ''hello'', msg_timestamp = None\<rparr>]\<rparr>"
    by (simp add: run_ops_def start_chat_def Let_def)
  from producer_exception_becomes_error_event
         [where agent = ?agent and msgs = "[(''user'', ''hello'')]" and thread_id = "''s''"
            and msg = "''boom''" and env = ?env and subtask_id = "''id-1''" and reg = ?reg
            and uuid = "''id-1''" and earlier = "[]" and now = "\<lparr>session_stamp = 0, stored_at = 0, answered_at = 0\<rparr>" and later = "[]"
            and request = "\<lparr>req_messages = [\<lparr>role = USER, content = ''hello'', msg_timestamp = None\<rparr>],
                                              req_session_id = Some ''s'', req_stream = True\<rparr>"]
       fw h
  show ?thesis by auto
qed

section \<open>The wire frame\<close>

text \<open>
  The frame of a stream that only completes: its \<open>data\<close> is the dump of the whole event,
  with \<open>event_type\<close> and \<open>timestamp\<close> beside the payload, where the wire form of the
  specification has the empty payload alone.
\<close>

theorem frame_data_is_not_payload:
  "fst (event_generator \<lparr>clock = (\<lambda>n. 7), validation_text = (\<lambda>ty d. ''invalid'')\<rparr>
          (\<lambda>msgs thread_id. \<lparr>yielded = [], ending = Exhausted\<rparr>)
          \<lparr>gen_messages = [], gen_session_id = ''s'', gen_subtask_id = ''id-1''\<rparr> Map.empty)
     = [[(''event'', JStr ''complete''),
         (''data'', JObj [(''event_type'', JStr ''complete''), (''data'', JObj []), (''timestamp'', JTime 7)])]]
   \<and> map spec_frame (emitted (stream_chat_events \<lparr>clock = (\<lambda>n. 7), validation_text = (\<lambda>ty d. ''invalid'')\<rparr>
          (\<lambda>msgs thread_id. \<lparr>yielded = [], ending = Exhausted\<rparr>) [] ''s'' ''id-1'' Map.empty))
     = [[(''event'', JStr ''complete''), (''data'', JObj [])]]"
  by (simp add: event_generator_def Let_def sse_frame_def model_dump_def spec_frame_def
        stream_chat_events_def terminal_event_def)

text \<open>
  C2, as the code has it. Every frame of a stream is the dict \<open>{event, data}\<close> whose
  \<open>event\<close> is the kind of the event and whose \<open>data\<close> is the dump of the whole
  \<open>ChatEvent\<close>: \<open>event_type\<close>, the payload under \<open>data\<close>, and \<open>timestamp\<close>.
\<close>

theorem frame_carries_whole_event:
  "fst (event_generator env agent g reg) =
     map (\<lambda>e. [(''event'', JStr (event_type e)),
                (''data'', JObj [(''event_type'', JStr (event_type e)),
                                 (''data'', JObj (data e)),
                                 (''timestamp'', JTime (timestamp e))])])
         (emitted (stream_chat_events env agent (gen_messages g) (gen_session_id g) (gen_subtask_id g) reg))"
  by (simp add: event_generator_def Let_def sse_frame_def model_dump_def)

section \<open>The status of a session\<close>

text \<open>
  A session whose stream has completed, or has failed, and is then cancelled: the
  \<open>DELETE\<close> succeeds and the status turns from \<open>completed\<close> (or \<open>error\<close>) into
  \<open>cancelled\<close>.
\<close>

theorem delete_overwrites_terminal_status:
  "map_option status
     (run_ops [POST ''id-1'' \<lparr>session_stamp = 0, stored_at = 0, answered_at = 0\<rparr> \<lparr>req_messages = [], req_session_id = Some ''s'', req_stream = True\<rparr>,
               STREAM_END \<lparr>clock = (\<lambda>n. int n), validation_text = (\<lambda>ty d. ''invalid'')\<rparr>
                 (\<lambda>msgs thread_id. \<lparr>yielded = [], ending = Exhausted\<rparr>) [] ''s'' ''id-1''] Map.empty ''id-1'')
     = Some ''completed''
   \<and> map_option status
     (run_ops [POST ''id-1'' \<lparr>session_stamp = 0, stored_at = 0, answered_at = 0\<rparr> \<lparr>req_messages = [], req_session_id = Some ''s'', req_stream = True\<rparr>,
               STREAM_END \<lparr>clock = (\<lambda>n. int n), validation_text = (\<lambda>ty d. ''invalid'')\<rparr>
                 (\<lambda>msgs thread_id. \<lparr>yielded = [], ending = Exhausted\<rparr>) [] ''s'' ''id-1'',
               DELETE ''id-1''] Map.empty ''id-1'')
     = Some ''cancelled''
   \<and> fst (cancel_session ''id-1''
     (run_ops [POST ''id-1'' \<lparr>session_stamp = 0, stored_at = 0, answered_at = 0\<rparr> \<lparr>req_messages = [], req_session_id = Some ''s'', req_stream = True\<rparr>,
               STREAM_END \<lparr>clock = (\<lambda>n. int n), validation_text = (\<lambda>ty d. ''invalid'')\<rparr>
                 (\<lambda>msgs thread_id. \<lparr>yielded = [], ending = Exhausted\<rparr>) [] ''s'' ''id-1''] Map.empty))
     = Inr [(''status'', JStr ''cancelled''), (''subtask_id'', JStr ''id-1'')]
   \<and> \<not> spec_terminal_final (DELETE ''id-1'')
     (run_ops [POST ''id-1'' \<lparr>session_stamp = 0, stored_at = 0, answered_at = 0\<rparr> \<lparr>req_messages = [], req_session_id = Some ''s'', req_stream = True\<rparr>,
               STREAM_END \<lparr>clock = (\<lambda>n. int n), validation_text = (\<lambda>ty d. ''invalid'')\<rparr>
                 (\<lambda>msgs thread_id. \<lparr>yielded = [], ending = Exhausted\<rparr>) [] ''s'' ''id-1''] Map.empty) ''id-1''
   \<and> \<not> spec_terminal_final (DELETE ''id-1'')
     (run_ops [POST ''id-1'' \<lparr>session_stamp = 0, stored_at = 0, answered_at = 0\<rparr> \<lparr>req_messages = [], req_session_id = Some ''s'', req_stream = True\<rparr>,
               STREAM_END \<lparr>clock = (\<lambda>n. int n), validation_text = (\<lambda>ty d. ''invalid'')\<rparr>
                 (\<lambda>msgs thread_id. \<lparr>yielded = [], ending = Raises ''boom''\<rparr>) [] ''s'' ''id-1''] Map.empty) ''id-1''"
  by (simp add: run_ops_def start_chat_def Let_def stream_chat_events_def set_status_if_present_def
        cancel_session_def spec_terminal_final_def terminal_statuses_def)

text \<open>
  C3, as the code has it. For a session in the registry every status write is
  unconditional: \<open>DELETE\<close> returns its success dict and sets the status to \<open>cancelled\<close>
  whatever it was, so it changes nothing exactly when the session was already cancelled;
  the end of a stream sets \<open>completed\<close>, \<open>error\<close> or \<open>cancelled\<close> whatever the status
  was; a status read changes nothing. No route fails with \<open>StreamCompletedError\<close>.
\<close>

theorem status_writes_are_unconditional:
  assumes "reg k = Some s"
  shows "cancel_session k reg =
           (Inr [(''status'', JStr ''cancelled''), (''subtask_id'', JStr k)],
            reg(k \<mapsto> s\<lparr>status := ''cancelled''\<rparr>))
       \<and> (snd (cancel_session k reg) = reg) = (status s = ''cancelled'')
       \<and> (\<exists>v. v \<in> set terminal_statuses
              \<and> sessions_after (stream_chat_events env agent msgs thread_id k reg) = reg(k \<mapsto> s\<lparr>status := v\<rparr>))
       \<and> apply_op (GET j now) reg = reg"
proof -
  have c: "cancel_session k reg =
           (Inr [(''status'', JStr ''cancelled''), (''subtask_id'', JStr k)],
            reg(k \<mapsto> s\<lparr>status := ''cancelled''\<rparr>))"
    using assms by (simp add: cancel_session_def)
  have "(reg(k \<mapsto> s\<lparr>status := ''cancelled''\<rparr>) = reg) = (s\<lparr>status := ''cancelled''\<rparr> = s)"
    using assms by (metis fun_upd_same fun_upd_triv option.inject)
  with c have n: "(snd (cancel_session k reg) = reg) = (status s = ''cancelled'')"
    by (simp add: status_update_idem)
  have st: "\<exists>v. v \<in> set terminal_statuses
              \<and> sessions_after (stream_chat_events env agent msgs thread_id k reg) = reg(k \<mapsto> s\<lparr>status := v\<rparr>)"
    using assms
    by (cases "forward env 0 (yielded (agent msgs thread_id))")
       (auto simp: stream_chat_events_def set_status_if_present_def terminal_statuses_def
             split: option.splits ending.splits)
  from c n st show ?thesis by simp
qed

theorem status_writes_are_unconditional_witness:
  "run_ops [POST ''id-1'' \<lparr>session_stamp = 0, stored_at = 0, answered_at = 0\<rparr> \<lparr>req_messages = [], req_session_id = Some ''s'', req_stream = True\<rparr>,
            STREAM_END \<lparr>clock = (\<lambda>n. int n), validation_text = (\<lambda>ty d. ''invalid'')\<rparr>
              (\<lambda>msgs thread_id. \<lparr>yielded = [], ending = Exhausted\<rparr>) [] ''s'' ''id-1''] Map.empty ''id-1''
     = Some \<lparr>session_id = ''s'', status = ''completed'', created_at = 0, messages = []\<rparr>
   \<and> cancel_session ''id-1''
        (run_ops [POST ''id-1'' \<lparr>session_stamp = 0, stored_at = 0, answered_at = 0\<rparr> \<lparr>req_messages = [], req_session_id = Some ''s'', req_stream = True\<rparr>,
            STREAM_END \<lparr>clock = (\<lambda>n. int n), validation_text = (\<lambda>ty d. ''invalid'')\<rparr>
              (\<lambda>msgs thread_id. \<lparr>yielded = [], ending = Exhausted\<rparr>) [] ''s'' ''id-1''] Map.empty)
     = (Inr [(''status'', JStr ''cancelled''), (''subtask_id'', JStr ''id-1'')],
        (run_ops [POST ''id-1'' \<lparr>session_stamp = 0, stored_at = 0, answered_at = 0\<rparr> \<lparr>req_messages = [], req_session_id = Some ''s'', req_stream = True\<rparr>,
            STREAM_END \<lparr>clock = (\<lambda>n. int n), validation_text = (\<lambda>ty d. ''invalid'')\<rparr>
              (\<lambda>msgs thread_id. \<lparr>yielded = [], ending = Exhausted\<rparr>) [] ''s'' ''id-1''] Map.empty)
          (''id-1'' \<mapsto> \<lparr>session_id = ''s'', status = ''cancelled'', created_at = 0, messages = []\<rparr>))"
proof -
  let ?reg = "run_ops [POST ''id-1'' \<lparr>session_stamp = 0, stored_at = 0, answered_at = 0\<rparr> \<lparr>req_messages = [], req_session_id = Some ''s'', req_stream = True\<rparr>,
            STREAM_END \<lparr>clock = (\<lambda>n. int n), validation_text = (\<lambda>ty d. ''invalid'')\<rparr>
              (\<lambda>msgs thread_id. \<lparr>yielded = [], ending = Exhausted\<rparr>) [] ''s'' ''id-1''] Map.empty"
  have known: "?reg ''id-1'' = Some \<lparr>session_id = ''s'', status = ''completed'', created_at = 0, messages = []\<rparr>"
    by (simp add: run_ops_def start_chat_def Let_def stream_chat_events_def set_status_if_present_def)
  from status_writes_are_unconditional
         [where reg = ?reg and k = "''id-1''"
            and s = "\<lparr>session_id = ''s'', status = ''completed'', created_at = 0, messages = []\<rparr>"]
       known
  show ?thesis by simp
qed

section \<open>The HTTP routes\<close>

text \<open>
  C6. \<open>GET /response/{subtask_id}\<close>, after any history of the application: for an id
  in the registry the answer is the session status with \<open>subtask_id\<close>, \<open>session_id\<close>,
  \<open>status\<close>, \<open>created_at\<close>, \<open>updated_at\<close> and \<open>message_count\<close> (the optional
  \<open>metadata\<close> is \<open>None\<close>); for an unknown id it is the 404, and the 404 arises in no
  other case. The status always passes the validation of \<open>SessionStatus\<close>, since the
  routes and the stream write only \<open>running\<close>, \<open>completed\<close>, \<open>error\<close> and \<open>cancelled\<close>.
\<close>

theorem get_session_status_known_or_404:
  "get_session_status subtask_id now (run_ops ops Map.empty) =
     (case run_ops ops Map.empty subtask_id of
        None \<Rightarrow> Inl (HTTPException 404 ''Subtask not found'')
      | Some s \<Rightarrow>
          Inr \<lparr> ss_subtask_id = subtask_id, ss_session_id = session_id s,
                ss_status = status s, ss_created_at = created_at s,
                ss_updated_at = Some now, ss_message_count = length (messages s),
                ss_metadata = None \<rparr>)"
proof (cases "run_ops ops Map.empty subtask_id")
  case None
  then show ?thesis by (simp add: get_session_status_def)
next
  case (Some s)
  have "valid_statuses (run_ops ops Map.empty)"
    by (rule valid_statuses_run_ops [OF valid_statuses_empty])
  with Some have "status s \<in> set written_statuses"
    unfolding valid_statuses_def by blast
  then have "status s \<in> set SessionStatus_status_literals"
    unfolding SessionStatus_status_literals_def written_statuses_def by auto
  with Some show ?thesis by (simp add: get_session_status_def)
qed

text \<open>
  C7. Cancelling twice: for a session the registry knows, the second
  \<open>DELETE /response/{subtask_id}\<close> returns what the first returned, the success dict
  \<open>{"status": "cancelled", "subtask_id": ...}\<close>, and leaves the registry as the first
  left it, with the status \<open>cancelled\<close>.
\<close>

theorem cancel_twice_idempotent:
  assumes "reg subtask_id = Some s"
  shows "cancel_session subtask_id (snd (cancel_session subtask_id reg)) = cancel_session subtask_id reg
       \<and> fst (cancel_session subtask_id reg) =
           Inr [(''status'', JStr ''cancelled''), (''subtask_id'', JStr subtask_id)]
       \<and> snd (cancel_session subtask_id reg) subtask_id = Some (s\<lparr>status := ''cancelled''\<rparr>)"
  using assms by (simp add: cancel_session_def)

theorem cancel_twice_idempotent_witness:
  "run_ops [POST ''id-1'' \<lparr>session_stamp = 0, stored_at = 0, answered_at = 0\<rparr> \<lparr>req_messages = [], req_session_id = Some ''s'', req_stream = True\<rparr>] Map.empty ''id-1''
     = Some \<lparr>session_id = ''s'', status = ''running'', created_at = 0, messages = []\<rparr>
   \<and> fst (cancel_session ''id-1'' (snd (cancel_session ''id-1''
        (run_ops [POST ''id-1'' \<lparr>session_stamp = 0, stored_at = 0, answered_at = 0\<rparr> \<lparr>req_messages = [], req_session_id = Some ''s'', req_stream = True\<rparr>] Map.empty))))
     = Inr [(''status'', JStr ''cancelled''), (''subtask_id'', JStr ''id-1'')]
   \<and> snd (cancel_session ''id-1'' (snd (cancel_session ''id-1''
        (run_ops [POST ''id-1'' \<lparr>session_stamp = 0, stored_at = 0, answered_at = 0\<rparr> \<lparr>req_messages = [], req_session_id = Some ''s'', req_stream = True\<rparr>] Map.empty)))) ''id-1''
     = Some \<lparr>session_id = ''s'', status = ''cancelled'', created_at = 0, messages = []\<rparr>"
proof -
  let ?reg = "run_ops [POST ''id-1'' \<lparr>session_stamp = 0, stored_at = 0, answered_at = 0\<rparr> \<lparr>req_messages = [], req_session_id = Some ''s'', req_stream = True\<rparr>] Map.empty"
  have known: "?reg ''id-1'' = Some \<lparr>session_id = ''s'', status = ''running'', created_at = 0, messages = []\<rparr>"
    by (simp add: run_ops_def start_chat_def Let_def)
  from cancel_twice_idempotent
         [of ?reg "''id-1''" "\<lparr>session_id = ''s'', status = ''running'', created_at = 0, messages = []\<rparr>"]
       known
  show ?thesis by simp
qed

text \<open>
  C8. \<open>POST /response\<close>: the response is the event stream unless the body sets the
  stream flag to false (the flag defaults to true), and then it is the JSON object with
  the drawn \<open>subtask_id\<close>, the \<open>session_id\<close> stored for it and a \<open>status\<close>.
\<close>

theorem start_chat_response_shape:
  "(case fst (start_chat uuid now (parse_ChatRequest b) reg) of
      EventSourceResponse g headers \<Rightarrow>
        body_stream b \<noteq> Some False \<and> gen_subtask_id g = uuid
        \<and> headers = [(''X-Subtask-ID'', uuid)]
        \<and> map_option session_id (snd (start_chat uuid now (parse_ChatRequest b) reg) uuid)
            = Some (gen_session_id g)
        \<and> gen_messages g = map (\<lambda>m. (role_value (role m), content m)) (body_messages b)
    | JSON r \<Rightarrow>
        body_stream b = Some False \<and> cr_subtask_id r = uuid
        \<and> map_option session_id (snd (start_chat uuid now (parse_ChatRequest b) reg) uuid)
            = Some (cr_session_id r)
        \<and> cr_status r = ''created'' \<and> cr_status r \<in> set ChatResponse_status_literals)"
  by (cases "body_stream b")
     (auto simp: start_chat_def Let_def parse_ChatRequest_def ChatResponse_status_literals_def)

text \<open>
  C9. A non-streaming \<open>POST /response\<close> answers \<open>status = "created"\<close> while the entry
  it stored under the returned \<open>subtask_id\<close> has the status \<open>running\<close>, so a \<open>GET\<close>
  that follows reports \<open>running\<close>, not \<open>created\<close>.
\<close>

theorem nonstreaming_created_but_running:
  assumes "\<not> req_stream request"
  shows "\<exists>r s st. fst (start_chat uuid now request reg) = JSON r
           \<and> cr_subtask_id r = uuid \<and> cr_status r = ''created''
           \<and> snd (start_chat uuid now request reg) uuid = Some s \<and> status s = ''running''
           \<and> get_session_status uuid t (snd (start_chat uuid now request reg)) = Inr st
           \<and> ss_status st = ''running'' \<and> ss_status st \<noteq> ''created''"
  using assms
  by (simp add: start_chat_def Let_def get_session_status_def SessionStatus_status_literals_def)

theorem nonstreaming_created_but_running_witness:
  "\<not> req_stream \<lparr>req_messages = [], req_session_id = None, req_stream = False\<rparr>
   \<and> (\<exists>r s st. fst (start_chat ''id-1'' \<lparr>session_stamp = 0, stored_at = 0, answered_at = 0\<rparr> \<lparr>req_messages = [], req_session_id = None, req_stream = False\<rparr> Map.empty) = JSON r
           \<and> cr_subtask_id r = ''id-1'' \<and> cr_status r = ''created''
           \<and> snd (start_chat ''id-1'' \<lparr>session_stamp = 0, stored_at = 0, answered_at = 0\<rparr> \<lparr>req_messages = [], req_session_id = None, req_stream = False\<rparr> Map.empty) ''id-1'' = Some s \<and> status s = ''running''
           \<and> get_session_status ''id-1'' 5 (snd (start_chat ''id-1'' \<lparr>session_stamp = 0, stored_at = 0, answered_at = 0\<rparr> \<lparr>req_messages = [], req_session_id = None, req_stream = False\<rparr> Map.empty)) = Inr st
           \<and> ss_status st = ''running'' \<and> ss_status st \<noteq> ''created'')"
  using nonstreaming_created_but_running
    [of "\<lparr>req_messages = [], req_session_id = None, req_stream = False\<rparr>" "''id-1''" "\<lparr>session_stamp = 0, stored_at = 0, answered_at = 0\<rparr>" Map.empty 5]
  by simp

text \<open>
  C10. Once \<open>POST /response\<close> has stored a session, no cancellation, status read or end
  of a stream changes its \<open>messages\<close>, nor does a \<open>POST\<close> that drew another id: at every
  later point \<open>GET\<close> reports as \<open>message_count\<close> the number of messages of the
  original request.
\<close>

theorem message_count_is_frozen:
  assumes "list_all (\<lambda>x. \<not> posts_to uuid x) later"
  shows "(\<exists>s. run_ops (earlier @ POST uuid now request # later) Map.empty uuid = Some s
              \<and> messages s = req_messages request)
       \<and> (\<exists>st. get_session_status uuid t (run_ops (earlier @ POST uuid now request # later) Map.empty) = Inr st
              \<and> ss_message_count st = length (req_messages request))"
proof -
  let ?reg0 = "run_ops earlier Map.empty"
  let ?reg1 = "apply_op (POST uuid now request) ?reg0"
  let ?reg = "run_ops (earlier @ POST uuid now request # later) Map.empty"
  have eq: "?reg = run_ops later ?reg1"
    by (simp add: run_ops_append run_ops_Cons)
  have "\<exists>s. ?reg1 uuid = Some s \<and> messages s = req_messages request"
    by (simp add: start_chat_def Let_def)
  then obtain s1 where s1: "?reg1 uuid = Some s1" "messages s1 = req_messages request" by blast
  from s1(1) assms have "\<exists>s'. run_ops later ?reg1 uuid = Some s' \<and> messages s' = messages s1"
    by (rule run_ops_keeps_messages)
  with s1(2) eq obtain s where s: "?reg uuid = Some s" "messages s = req_messages request" by auto
  have "valid_statuses ?reg"
    by (rule valid_statuses_run_ops [OF valid_statuses_empty])
  with s(1) have "status s \<in> set written_statuses"
    unfolding valid_statuses_def by blast
  then have "status s \<in> set SessionStatus_status_literals"
    unfolding SessionStatus_status_literals_def written_statuses_def by auto
  with s have "\<exists>st. get_session_status uuid t ?reg = Inr st
              \<and> ss_message_count st = length (req_messages request)"
    by (simp add: get_session_status_def)
  with s show ?thesis by blast
qed

theorem message_count_is_frozen_witness:
  "list_all (\<lambda>x. \<not> posts_to ''id-1'' x)
     [DELETE ''id-1'', GET ''id-1'' 3,
      STREAM_END \<lparr>clock = (\<lambda>n. 7), validation_text = (\<lambda>ty d. ''invalid'')\<rparr>
        (\<lambda>msgs thread_id. \<lparr>yielded = [], ending = Raises ''boom''\<rparr>) [] ''s'' ''id-1'',
      POST ''id-2'' \<lparr>session_stamp = 1, stored_at = 1, answered_at = 1\<rparr> \<lparr>req_messages = [], req_session_id = None, req_stream = True\<rparr>]
   \<and> (\<exists>st. get_session_status ''id-1'' 9
         (run_ops ([] @ POST ''id-1'' \<lparr>session_stamp = 0, stored_at = 0, answered_at = 0\<rparr>
              \<lparr>req_messages = [\<lparr>role = USER, content = ''hi'', msg_timestamp = None\<rparr>,
                                \<lparr>role = USER, content = ''again'', msg_timestamp = None\<rparr>],
                req_session_id = Some ''s'', req_stream = True\<rparr> #
            [DELETE ''id-1'', GET ''id-1'' 3,
             STREAM_END \<lparr>clock = (\<lambda>n. 7), validation_text = (\<lambda>ty d. ''invalid'')\<rparr>
               (\<lambda>msgs thread_id. \<lparr>yielded = [], ending = Raises ''boom''\<rparr>) [] ''s'' ''id-1'',
             POST ''id-2'' \<lparr>session_stamp = 1, stored_at = 1, answered_at = 1\<rparr> \<lparr>req_messages = [], req_session_id = None, req_stream = True\<rparr>])
           Map.empty) = Inr st
        \<and> ss_message_count st = 2)"
proof -
  have h: "list_all (\<lambda>x. \<not> posts_to ''id-1'' x)
     [DELETE ''id-1'', GET ''id-1'' 3,
      STREAM_END \<lparr>clock = (\<lambda>n. 7), validation_text = (\<lambda>ty d. ''invalid'')\<rparr>
        (\<lambda>msgs thread_id. \<lparr>yielded = [], ending = Raises ''boom''\<rparr>) [] ''s'' ''id-1'',
      POST ''id-2'' \<lparr>session_stamp = 1, stored_at = 1, answered_at = 1\<rparr> \<lparr>req_messages = [], req_session_id = None, req_stream = True\<rparr>]"
    by simp
  from message_count_is_frozen [OF h, of "[]" "\<lparr>session_stamp = 0, stored_at = 0, answered_at = 0\<rparr>"
      "\<lparr>req_messages = [\<lparr>role = USER, content = ''hi'', msg_timestamp = None\<rparr>,
                                \<lparr>role = USER, content = ''again'', msg_timestamp = None\<rparr>],
                req_session_id = Some ''s'', req_stream = True\<rparr>" 9] h
  show ?thesis by (simp add: numeral_2_eq_2)
qed

section \<open>The offsets of the event buffer\<close>

lemma buffer_append_invar:
  assumes "buffer_invar b"
  shows "\<exists>b'. buffer_append e b = Inr ((next_offset b, e), b') \<and> buffer_invar b'
            \<and> next_offset b' = Suc (next_offset b) \<and> capacity b' = capacity b"
proof -
  from assms have open_b: "\<not> closed b"
    and base: "base_offset b = next_offset b - capacity b"
    and offs: "map fst (events b) = [base_offset b..<next_offset b]"
    by (simp_all add: buffer_invar_def stored_offsets_def)
  from offs have len: "length (events b) = next_offset b - base_offset b"
    by (metis length_map length_upt)
  show ?thesis
  proof (cases "capacity b < Suc (length (events b))")
    case True
    with len base have ge: "capacity b \<le> next_offset b" by arith
    have "map fst (tl (events b @ [(next_offset b, e)])) = tl (map fst (events b) @ [next_offset b])"
      by (simp add: map_tl)
    also have "\<dots> = tl [base_offset b..<Suc (next_offset b)]"
      using offs base by simp
    also have "\<dots> = [Suc (base_offset b)..<Suc (next_offset b)]"
      using base by (simp add: upt_conv_Cons)
    finally have "map fst (tl (events b @ [(next_offset b, e)])) = [Suc (base_offset b)..<Suc (next_offset b)]" .
    with True open_b base ge show ?thesis
      by (simp add: buffer_append_def Let_def buffer_invar_def stored_offsets_def)
  next
    case False
    with len base have lt: "next_offset b < capacity b" by arith
    with False open_b base offs show ?thesis
      by (simp add: buffer_append_def Let_def buffer_invar_def stored_offsets_def)
  qed
qed

lemma publish_all_invar:
  "buffer_invar b \<Longrightarrow>
   \<exists>returned b'. publish_all es b = Inr (returned, b')
      \<and> map fst returned = [next_offset b..<next_offset b + length es]
      \<and> map snd returned = es
      \<and> buffer_invar b' \<and> next_offset b' = next_offset b + length es
      \<and> capacity b' = capacity b"
proof (induction es arbitrary: b)
  case Nil
  then show ?case by simp
next
  case (Cons e es)
  from buffer_append_invar [OF Cons.prems, of e]
  obtain b1 where b1: "buffer_append e b = Inr ((next_offset b, e), b1)" "buffer_invar b1"
      "next_offset b1 = Suc (next_offset b)" "capacity b1 = capacity b" by blast
  from Cons.IH [OF b1(2)]
  obtain returned b2 where r: "publish_all es b1 = Inr (returned, b2)"
      "map fst returned = [next_offset b1..<next_offset b1 + length es]"
      "map snd returned = es" "buffer_invar b2"
      "next_offset b2 = next_offset b1 + length es" "capacity b2 = capacity b1" by blast
  have "next_offset b < next_offset b + length (e # es)" by simp
  then have "[next_offset b..<next_offset b + length (e # es)]
          = next_offset b # [Suc (next_offset b)..<next_offset b + length (e # es)]"
    by (rule upt_conv_Cons)
  then have run: "[next_offset b..<next_offset b + length (e # es)]
          = next_offset b # [next_offset b1..<next_offset b1 + length es]"
    using b1(3) by simp
  have "publish_all (e # es) b = Inr ((next_offset b, e) # returned, b2)"
    using b1(1) r(1) by simp
  moreover have "map fst ((next_offset b, e) # returned) = [next_offset b..<next_offset b + length (e # es)]"
    using r(2) run by (simp del: upt_Suc)
  moreover have "map snd ((next_offset b, e) # returned) = e # es"
    using r(3) by simp
  moreover have "next_offset b2 = next_offset b + length (e # es)"
    using r(5) b1(3) by simp
  moreover have "capacity b2 = capacity b"
    using r(6) b1(4) by simp
  ultimately have "publish_all (e # es) b = Inr ((next_offset b, e) # returned, b2)
      \<and> map fst ((next_offset b, e) # returned) = [next_offset b..<next_offset b + length (e # es)]
      \<and> map snd ((next_offset b, e) # returned) = e # es
      \<and> buffer_invar b2 \<and> next_offset b2 = next_offset b + length (e # es)
      \<and> capacity b2 = capacity b"
    using r(4) by (intro conjI)
  then show ?case by (intro exI)
qed

lemma fresh_buffer_invar: "buffer_invar (fresh_buffer cap)"
  by (simp add: buffer_invar_def fresh_buffer_def stored_offsets_def)

lemma publish_all_fresh:
  "\<exists>returned b. publish_all es (fresh_buffer cap) = Inr (returned, b)
      \<and> map fst returned = [0..<length es] \<and> map snd returned = es
      \<and> buffer_invar b \<and> next_offset b = length es \<and> capacity b = cap"
  using publish_all_invar [OF fresh_buffer_invar, of es cap]
  by (simp add: fresh_buffer_def)

text \<open>
  Capacity 3 and five events: the buffer holds the offsets 2, 3, 4 and its base is 2;
  the offsets 0 and 1 are evicted and a replay from offset 0 fails.
\<close>

theorem evicted_offsets_are_gone:
  "\<not> spec_offsets_from_zero 3 [''a'', ''b'', ''c'', ''d'', ''e'']
   \<and> (case publish_all [''a'', ''b'', ''c'', ''d'', ''e''] (fresh_buffer 3) of
        Inl err \<Rightarrow> False
      | Inr (returned, b) \<Rightarrow>
          stored_offsets b = [2, 3, 4] \<and> base_offset b = 2
          \<and> readFrom 0 b = Inl BufferOverflowError
          \<and> readFrom 2 b = Inr [(2, ''c''), (3, ''d''), (4, ''e'')])"
  by (simp add: spec_offsets_from_zero_def fresh_buffer_def buffer_append_def Let_def
        stored_offsets_def upt_conv_Cons readFrom_def)

text \<open>
  C4, for the bounded buffer. Publishing N events to a fresh buffer assigns them, at
  append time and in order, the offsets \<open>0..N-1\<close>. The buffer then holds the last
  \<open>min N capacity\<close> of them: its stored offsets are the gap-free, strictly increasing
  run from \<open>N - capacity\<close> (0 when nothing was evicted) to \<open>N-1\<close>, with no offset twice.
\<close>

theorem fresh_buffer_offsets:
  "\<exists>returned b. publish_all es (fresh_buffer cap) = Inr (returned, b)
      \<and> map fst returned = [0..<length es] \<and> map snd returned = es
      \<and> base_offset b = length es - cap
      \<and> stored_offsets b = [length es - cap..<length es]
      \<and> stored_offsets b = drop (length es - cap) [0..<length es]
      \<and> distinct (stored_offsets b)"
proof -
  from publish_all_fresh [of es cap]
  obtain returned b where r: "publish_all es (fresh_buffer cap) = Inr (returned, b)"
      "map fst returned = [0..<length es]" "map snd returned = es" "buffer_invar b"
      "next_offset b = length es" "capacity b = cap" by blast
  from r(4) r(5) r(6) have base: "base_offset b = length es - cap"
    and offs: "stored_offsets b = [length es - cap..<length es]"
    by (simp_all add: buffer_invar_def)
  have "drop (length es - cap) [0..<length es] = [length es - cap..<length es]"
    by simp
  with r(1) r(2) r(3) base offs show ?thesis by simp
qed

end
